theory Spec2Isabelle
  imports Complex_Main "HOL-Library.Log_Nat"
begin

section \<open>Python floats: IEEE 754 binary64 values\<close>

text \<open>
  The script \<^verbatim>\<open>plot_results.py\<close> computes with Python floats, which are IEEE 754
  binary64 numbers. A float is modelled by its value: a sign and a magnitude (a rational
  number, which for a float is an integer below \<open>2^53\<close> times a power of two not below
  \<open>2^-1074\<close>), an infinity with its sign, or a NaN. The sign is \<open>True\<close> for a negative
  number, so \<open>Finite True 0\<close> is the float \<open>-0.0\<close>.
\<close>

datatype double = Finite bool rat | Infinite bool | NaN

text \<open>Rounding a rational to the nearest integer, a tie going to the even neighbour.\<close>

definition round_half_even :: "rat \<Rightarrow> int" where
  "round_half_even x =
     (let f = \<lfloor>x\<rfloor>; r = x - of_int f
      in if r < 1 / 2 then f
         else if 1 / 2 < r then f + 1
         else if even f then f else f + 1)"

text \<open>
  The binary exponent of a positive rational \<open>q\<close>: the integer \<open>e\<close> with
  \<open>2^e \<le> q < 2^(e+1)\<close>, found from the bit lengths of numerator and denominator.
\<close>

definition ilog2 :: "rat \<Rightarrow> int" where
  "ilog2 q =
     (let d = bitlen (fst (quotient_of q)) - bitlen (snd (quotient_of q))
      in if 2 powi d \<le> q then d else d - 1)"

text \<open>
  The exponent of the unit in the last place at \<open>q\<close>: 53 significant bits for a normal
  number, the fixed spacing \<open>2^-1074\<close> in the subnormal range.
\<close>

definition ulp_exp :: "rat \<Rightarrow> int" where
  "ulp_exp q = max (ilog2 q - 52) (- 1074)"

text \<open>
  Round-to-nearest, ties-to-even, of a magnitude \<open>q \<ge> 0\<close>: the nearest multiple of the
  unit in the last place; \<open>None\<close> is the overflow to infinity, which happens when the
  rounded magnitude reaches \<open>2^1024\<close>.
\<close>

definition round_mag :: "rat \<Rightarrow> rat option" where
  "round_mag q =
     (if q = 0 then Some 0
      else let u = ulp_exp q;
               v = of_int (round_half_even (q / 2 powi u)) * 2 powi u
           in if 2 powi 1024 \<le> v then None else Some v)"

text \<open>The nearest multiple of the unit in the last place, before the overflow test.\<close>

definition nearest :: "rat \<Rightarrow> rat" where
  "nearest q = of_int (round_half_even (q / 2 powi ulp_exp q)) * 2 powi ulp_exp q"

definition round_double :: "bool \<Rightarrow> rat \<Rightarrow> double" where
  "round_double s q = (case round_mag q of None \<Rightarrow> Infinite s | Some v \<Rightarrow> Finite s v)"

text \<open>A float literal of the source, such as \<^verbatim>\<open>32.83\<close>: the float nearest to the decimal.\<close>

definition float_lit :: "rat \<Rightarrow> double" where
  "float_lit q = round_double (q < 0) \<bar>q\<bar>"

text \<open>IEEE 754 division of two floats, rounded to nearest.\<close>

fun ieee_div :: "double \<Rightarrow> double \<Rightarrow> double" where
  "ieee_div NaN y = NaN"
| "ieee_div x NaN = NaN"
| "ieee_div (Infinite s) (Infinite t) = NaN"
| "ieee_div (Infinite s) (Finite t n) = Infinite (s \<noteq> t)"
| "ieee_div (Finite s m) (Infinite t) = Finite (s \<noteq> t) 0"
| "ieee_div (Finite s m) (Finite t n) =
     (if n = 0 then (if m = 0 then NaN else Infinite (s \<noteq> t))
      else round_double (s \<noteq> t) (m / n))"

text \<open>Python's comparison \<^verbatim>\<open>x == 0.0\<close>: true of both zeros.\<close>

fun is_zero :: "double \<Rightarrow> bool" where
  "is_zero (Finite s m) = (m = 0)"
| "is_zero (Infinite s) = False"
| "is_zero NaN = False"

text \<open>
  The order of the floats. An infinity compares as \<open>2^1024\<close>, which lies beyond every
  finite float; a NaN compares false with everything.
\<close>

fun ord_val :: "double \<Rightarrow> rat" where
  "ord_val (Finite s m) = (if s then - m else m)"
| "ord_val (Infinite s) = (if s then - (2 powi 1024) else 2 powi 1024)"
| "ord_val NaN = 0"

definition float_lt :: "double \<Rightarrow> double \<Rightarrow> bool" where
  "float_lt x y = (x \<noteq> NaN \<and> y \<noteq> NaN \<and> ord_val x < ord_val y)"

definition float_le :: "double \<Rightarrow> double \<Rightarrow> bool" where
  "float_le x y = (x \<noteq> NaN \<and> y \<noteq> NaN \<and> ord_val x \<le> ord_val y)"

text \<open>
  A float is approximately the decimal \<open>d\<close>, written with three decimals, when it lies
  within one unit of the third decimal of it.
\<close>

definition approx :: "rat \<Rightarrow> double \<Rightarrow> bool" where
  "approx d y = (y \<noteq> NaN \<and> \<bar>ord_val y - d\<bar> < 1 / 1000)"

text \<open>A positive real elapsed time: a finite float above zero.\<close>

fun positive :: "double \<Rightarrow> bool" where
  "positive (Finite s m) = (\<not> s \<and> 0 < m)"
| "positive (Infinite s) = False"
| "positive NaN = False"

section \<open>The speedup computation\<close>

datatype error = IndexError | ZeroDivisionError

text \<open>Python's \<^verbatim>\<open>a / b\<close> on floats: a zero divisor raises, anything else is IEEE division.\<close>

definition truediv :: "double \<Rightarrow> double \<Rightarrow> error + double" where
  "truediv a b = (if is_zero b then Inl ZeroDivisionError else Inr (ieee_div a b))"

text \<open>\<^verbatim>\<open>base_time = times[0]\<close>\<close>

definition base_time :: "double list \<Rightarrow> error + double" where
  "base_time tms = (case tms of [] \<Rightarrow> Inl IndexError | t # _ \<Rightarrow> Inr t)"

text \<open>
  The list comprehension \<^verbatim>\<open>[base_time / t for t in times]\<close>: the quotients in the
  order of \<^verbatim>\<open>times\<close>, the first failing division ending the comprehension.
\<close>

fun quotients :: "double \<Rightarrow> double list \<Rightarrow> error + double list" where
  "quotients b [] = Inr []"
| "quotients b (t # ts) =
     (case truediv b t of
        Inl e \<Rightarrow> Inl e
      | Inr y \<Rightarrow> (case quotients b ts of Inl e \<Rightarrow> Inl e | Inr ys \<Rightarrow> Inr (y # ys)))"

text \<open>Lines 7 and 8 of the script: the value bound to \<^verbatim>\<open>speedups\<close>.\<close>

definition speedups :: "double list \<Rightarrow> error + double list" where
  "speedups tms =
     (case base_time tms of Inl e \<Rightarrow> Inl e | Inr b \<Rightarrow> quotients b tms)"

section \<open>Formatting a float with two decimals\<close>

definition digit_char :: "nat \<Rightarrow> char" where
  "digit_char d = ''0123456789'' ! d"

fun decimal :: "nat \<Rightarrow> string" where
  "decimal n = (if n < 10 then [digit_char n] else decimal (n div 10) @ [digit_char (n mod 10)])"

declare decimal.simps [simp del]

text \<open>
  The format \<^verbatim>\<open>f'{y:.2f}'\<close>: the exact value of the float rounded to hundredths, a tie
  going to the even neighbour; the sign is kept, also on a zero.
\<close>

fun format_2f :: "double \<Rightarrow> string" where
  "format_2f NaN = ''nan''"
| "format_2f (Infinite s) = (if s then ''-inf'' else ''inf'')"
| "format_2f (Finite s m) =
     (let n = nat (round_half_even (m * 100))
      in (if s then ''-'' else []) @ decimal (n div 100) @ ''.'' @
         [digit_char (n div 10 mod 10), digit_char (n mod 10)])"

section \<open>The plotting library and the console\<close>

text \<open>
  The script drives \<^verbatim>\<open>matplotlib.pyplot\<close> and prints one line. The library is a
  collaborator outside the repository: the model records each call made to it, with its
  positional and keyword arguments, in the order of the calls, and takes the library to
  accept the call. A call to \<^verbatim>\<open>savefig\<close> is the writing of the image file. What is
  proved of a run that succeeds is proved of a dataset, a sequence of measurements, whose
  \<^verbatim>\<open>threads\<close> and \<^verbatim>\<open>times\<close> have the same length.
\<close>

datatype pyval =
    PyInt int
  | PyFloat double
  | PyStr string
  | PyBool bool
  | PyTuple "pyval list"
  | PyList "pyval list"

datatype call = Call (func: string) (args: "pyval list") (kwargs: "(string \<times> pyval) list")

record world =
  plt :: "call list"
  stdout :: "string list"

definition init_world :: world where
  "init_world = \<lparr>plt = [], stdout = []\<rparr>"

definition pyplot :: "string \<Rightarrow> pyval list \<Rightarrow> (string \<times> pyval) list \<Rightarrow> world \<Rightarrow> world" where
  "pyplot f a k w = w\<lparr>plt := plt w @ [Call f a k]\<rparr>"

definition py_print :: "string \<Rightarrow> world \<Rightarrow> world" where
  "py_print line w = w\<lparr>stdout := stdout w @ [line]\<rparr>"

definition calls_named :: "string \<Rightarrow> world \<Rightarrow> call list" where
  "calls_named f w = filter (\<lambda>c. func c = f) (plt w)"

section \<open>The script\<close>

text \<open>The data of lines 3 and 4.\<close>

definition threads :: "int list" where
  "threads = [1, 2, 4, 8]"

definition times_list :: "double list" where
  "times_list = [float_lit (3283 / 100), float_lit (1595 / 100), float_lit (956 / 100),
     float_lit (631 / 100)]"

definition output_filename :: string where
  "output_filename = ''results_graph.png''"

text \<open>
  Lines 7 and 8 as a statement of the script: they read \<^verbatim>\<open>times\<close> and touch neither
  the plotting library nor the console.
\<close>

definition compute_speedups :: "double list \<Rightarrow> world \<Rightarrow> (error + double list) \<times> world" where
  "compute_speedups tms w = (speedups tms, w)"

text \<open>One \<^verbatim>\<open>plt.annotate\<close> call of the loop of lines 19 to 26.\<close>

definition annotate :: "int \<times> double \<Rightarrow> call" where
  "annotate p =
     Call ''annotate''
       [PyStr (format_2f (snd p) @ ''x''), PyTuple [PyInt (fst p), PyFloat (snd p)]]
       [(''textcoords'', PyStr ''offset points''),
        (''xytext'', PyTuple [PyInt 0, PyInt 10]),
        (''ha'', PyStr ''center''),
        (''fontsize'', PyInt 10),
        (''fontweight'', PyStr ''bold'')]"

fun annotate_loop :: "(int \<times> double) list \<Rightarrow> world \<Rightarrow> world" where
  "annotate_loop [] w = w"
| "annotate_loop (p # ps) w = annotate_loop ps (w\<lparr>plt := plt w @ [annotate p]\<rparr>)"

text \<open>Lines 10 to 41: the chart, the saving of the image and the message.\<close>

definition render :: "int list \<Rightarrow> double list \<Rightarrow> world \<Rightarrow> world" where
  "render ths sp w =
     (let w1 = pyplot ''figure'' [] [(''figsize'', PyTuple [PyInt 10, PyInt 6])] w;
          w2 = pyplot ''plot'' [PyList (map PyInt ths), PyList (map PyInt ths), PyStr ''k--'']
                 [(''label'', PyStr ''Ideal Linear Speedup''),
                  (''alpha'', PyFloat (float_lit (5 / 10)))] w1;
          w3 = pyplot ''plot'' [PyList (map PyInt ths), PyList (map PyFloat sp)]
                 [(''marker'', PyStr ''o''), (''linewidth'', PyInt 2), (''markersize'', PyInt 8),
                  (''color'', PyStr ''#007acc''), (''label'', PyStr ''Actual Speedup'')] w2;
          w4 = annotate_loop (zip ths sp) w3;
          w5 = pyplot ''title'' [PyStr ''Wa-Tor Simulation Parallel Speedup'']
                 [(''fontsize'', PyInt 14)] w4;
          w6 = pyplot ''xlabel'' [PyStr ''Number of Threads (Workers)'']
                 [(''fontsize'', PyInt 12)] w5;
          w7 = pyplot ''ylabel'' [PyStr ''Speedup Factor''] [(''fontsize'', PyInt 12)] w6;
          w8 = pyplot ''xticks'' [PyList (map PyInt ths)] [] w7;
          w9 = pyplot ''grid'' [PyBool True]
                 [(''linestyle'', PyStr ''--''), (''alpha'', PyFloat (float_lit (7 / 10)))] w8;
          w10 = pyplot ''legend'' [] [] w9;
          w11 = pyplot ''savefig'' [PyStr output_filename] [(''dpi'', PyInt 300)] w10
      in py_print (''Success! Graph saved as '' @ output_filename) w11)"

text \<open>
  The whole script on a dataset: an error of the speedup computation ends the run where
  it is raised, before the first call to the plotting library.
\<close>

definition plot_results :: "int list \<Rightarrow> double list \<Rightarrow> world \<Rightarrow> error option \<times> world" where
  "plot_results ths tms w =
     (case compute_speedups tms w of
        (Inl e, w') \<Rightarrow> (Some e, w')
      | (Inr sp, w') \<Rightarrow> (None, render ths sp w'))"

definition main :: "world \<Rightarrow> error option \<times> world" where
  "main w = plot_results threads times_list w"

text \<open>
  The variables of the script together with the plotting library and the console: the
  state in which the statements of the script run. A variable holds whatever an earlier
  statement left in it.
\<close>

record state = world +
  threads_g :: "int list"
  times_g :: "double list"
  base_time_g :: double
  speedups_g :: "double list"

text \<open>Line 7, \<^verbatim>\<open>base_time = times[0]\<close>, as a statement.\<close>

definition stmt_base_time :: "state \<Rightarrow> error + state" where
  "stmt_base_time s =
     (case times_g s of [] \<Rightarrow> Inl IndexError | t # _ \<Rightarrow> Inr (s\<lparr>base_time_g := t\<rparr>))"

text \<open>
  Line 8, \<^verbatim>\<open>speedups = [base_time / t for t in times]\<close>, as a statement: it reads
  the variables \<^verbatim>\<open>base_time\<close> and \<^verbatim>\<open>times\<close> and assigns \<^verbatim>\<open>speedups\<close>.
\<close>

definition stmt_speedups :: "state \<Rightarrow> error + state" where
  "stmt_speedups s =
     (case quotients (base_time_g s) (times_g s) of
        Inl e \<Rightarrow> Inl e
      | Inr ys \<Rightarrow> Inr (s\<lparr>speedups_g := ys\<rparr>))"

text \<open>Lines 7 and 8 in sequence; an exception of line 7 ends the run before line 8.\<close>

definition lines_7_8 :: "state \<Rightarrow> error + state" where
  "lines_7_8 s = (case stmt_base_time s of Inl e \<Rightarrow> Inl e | Inr s1 \<Rightarrow> stmt_speedups s1)"

text \<open>What the two lines produce: the exception, or the value of \<^verbatim>\<open>speedups\<close>.\<close>

definition outcome :: "error + state \<Rightarrow> error + double list" where
  "outcome r = (case r of Inl e \<Rightarrow> Inl e | Inr s \<Rightarrow> Inr (speedups_g s))"

text \<open>
  What a chart shows of the speedups: the y-values of the curve labelled
  \<open>Actual Speedup\<close>, and of each annotation its text and the y-value of its point.
\<close>

fun point_y :: "pyval \<Rightarrow> pyval list" where
  "point_y (PyTuple [x, y]) = [y]"
| "point_y v = []"

definition annotation_labels :: "world \<Rightarrow> pyval list" where
  "annotation_labels w = concat (map (\<lambda>c. take 1 (args c)) (calls_named ''annotate'' w))"

definition annotated_values :: "world \<Rightarrow> pyval list" where
  "annotated_values w =
     concat (map (\<lambda>c. concat (map point_y (drop 1 (args c)))) (calls_named ''annotate'' w))"

definition curve_values :: "world \<Rightarrow> pyval list" where
  "curve_values w =
     concat (map (\<lambda>c. take 1 (drop 1 (args c)))
       (filter (\<lambda>c. map_of (kwargs c) ''label'' = Some (PyStr ''Actual Speedup''))
          (calls_named ''plot'' w)))"

section \<open>Properties of the rounding\<close>

lemma pow2_pos: "0 < (2::rat) powi e"
  by simp

lemma pow2_add: "(2::rat) powi (a + b) = 2 powi a * 2 powi b"
  by (simp add: power_int_add)

lemma pow2_mono: "a \<le> b \<Longrightarrow> (2::rat) powi a \<le> 2 powi b"
  by (rule power_int_increasing) simp_all

lemma pow2_strict_mono: "a < b \<Longrightarrow> (2::rat) powi a < 2 powi b"
  by (rule power_int_strict_increasing) simp_all

lemma pow2_le_iff: "(2::rat) powi a \<le> 2 powi b \<longleftrightarrow> a \<le> b"
  using pow2_mono[of a b] pow2_strict_mono[of b a] by (auto simp: not_le[symmetric])

lemma pow2_less_iff: "(2::rat) powi a < 2 powi b \<longleftrightarrow> a < b"
  using pow2_mono[of b a] pow2_strict_mono[of a b] by (auto simp: not_less[symmetric])

lemma bitlen_rat_bounds:
  assumes "0 < a"
  shows "(2::rat) powi (bitlen a - 1) \<le> of_int a" and "of_int a < (2::rat) powi (bitlen a)"
proof -
  from bitlen_bounds[OF assms] have l: "2 ^ nat (bitlen a - 1) \<le> a" and u: "a < 2 ^ nat (bitlen a)"
    by auto
  have pos: "0 < bitlen a"
  proof (rule ccontr)
    assume "\<not> 0 < bitlen a"
    then have "nat (bitlen a) = 0" by simp
    with u assms show False by simp
  qed
  have "(2::rat) powi (bitlen a - 1) = 2 ^ nat (bitlen a - 1)"
    using pos by (simp add: power_int_def)
  also have "\<dots> = of_int (2 ^ nat (bitlen a - 1))" by simp
  also have "\<dots> \<le> of_int a" using l by (simp only: of_int_le_iff)
  finally show "(2::rat) powi (bitlen a - 1) \<le> of_int a" .
  have "(of_int a :: rat) < of_int (2 ^ nat (bitlen a))" using u by (simp only: of_int_less_iff)
  also have "\<dots> = 2 powi (bitlen a)" using pos by (simp add: power_int_def)
  finally show "of_int a < (2::rat) powi (bitlen a)" .
qed

lemma ilog2_bounds:
  assumes "0 < q"
  shows "2 powi (ilog2 q) \<le> q" and "q < 2 powi (ilog2 q + 1)"
proof -
  obtain a b where ab: "quotient_of q = (a, b)" by (cases "quotient_of q")
  have b: "0 < b" using ab quotient_of_denom_pos by blast
  have q: "q = of_int a / of_int b" using ab by (rule quotient_of_div)
  have a: "0 < a" using assms b q by (simp add: zero_less_divide_iff)
  define d where "d = bitlen a - bitlen b"
  have br: "0 < (of_int b :: rat)" using b by simp
  have "q * of_int b = of_int a" using q br by simp
  have up: "q < 2 powi (d + 1)"
  proof -
    have "of_int a < (2::rat) powi (bitlen a)" by (rule bitlen_rat_bounds[OF a])
    also have "\<dots> = 2 powi (d + 1) * 2 powi (bitlen b - 1)"
      by (simp add: d_def flip: pow2_add)
    also have "\<dots> \<le> 2 powi (d + 1) * of_int b"
      using bitlen_rat_bounds(1)[OF b] by (simp add: mult_left_mono)
    finally have "of_int a / of_int b < (2::rat) powi (d + 1)"
      using br by (simp add: divide_less_eq)
    then show ?thesis by (simp add: q)
  qed
  have lo: "2 powi (d - 1) \<le> q"
  proof -
    have "(2::rat) powi (d - 1) * of_int b \<le> 2 powi (d - 1) * 2 powi (bitlen b)"
      using bitlen_rat_bounds(2)[OF b] by (simp add: mult_left_mono)
    also have "\<dots> = 2 powi (bitlen a - 1)" by (simp add: d_def flip: pow2_add)
    also have "\<dots> \<le> of_int a" by (rule bitlen_rat_bounds[OF a])
    finally have "(2::rat) powi (d - 1) \<le> of_int a / of_int b"
      using br by (simp add: le_divide_eq)
    then show ?thesis by (simp add: q)
  qed
  have e: "ilog2 q = (if 2 powi d \<le> q then d else d - 1)"
    by (simp add: ilog2_def ab d_def Let_def)
  show "2 powi (ilog2 q) \<le> q" using lo by (simp add: e)
  show "q < 2 powi (ilog2 q + 1)" using up by (auto simp add: e not_le)
qed

lemma ilog2_unique:
  assumes "0 < q" "2 powi e \<le> q" "q < 2 powi (e + 1)"
  shows "ilog2 q = e"
proof -
  have "2 powi (ilog2 q) < (2::rat) powi (e + 1)"
    using ilog2_bounds(1)[OF assms(1)] assms(3) by simp
  then have 1: "ilog2 q < e + 1" by (simp only: pow2_less_iff)
  have "2 powi e < (2::rat) powi (ilog2 q + 1)"
    using ilog2_bounds(2)[OF assms(1)] assms(2) by simp
  then have 2: "e < ilog2 q + 1" by (simp only: pow2_less_iff)
  from 1 2 show ?thesis by simp
qed

lemma ilog2_mono:
  assumes "0 < p" "p \<le> q"
  shows "ilog2 p \<le> ilog2 q"
proof -
  have q: "0 < q" using assms by simp
  have "2 powi (ilog2 p) \<le> p" by (rule ilog2_bounds[OF assms(1)])
  also have "\<dots> \<le> q" by fact
  also have "\<dots> < 2 powi (ilog2 q + 1)" by (rule ilog2_bounds[OF q])
  finally have "ilog2 p < ilog2 q + 1" by (simp only: pow2_less_iff)
  then show ?thesis by simp
qed

lemma rhe_cases:
  "round_half_even x = \<lfloor>x\<rfloor> \<or> round_half_even x = \<lfloor>x\<rfloor> + 1"
  by (simp add: round_half_even_def Let_def)

lemma rhe_low: "x - of_int \<lfloor>x\<rfloor> < 1 / 2 \<Longrightarrow> round_half_even x = \<lfloor>x\<rfloor>"
  by (simp add: round_half_even_def Let_def)

lemma rhe_high: "1 / 2 < x - of_int \<lfloor>x\<rfloor> \<Longrightarrow> round_half_even x = \<lfloor>x\<rfloor> + 1"
  by (simp add: round_half_even_def Let_def)

lemma rhe_lower: "of_int (round_half_even x) - 1 / 2 \<le> x"
proof -
  have f: "of_int \<lfloor>x\<rfloor> - 1 / 2 \<le> x" by linarith
  show ?thesis
  proof (cases "x - of_int \<lfloor>x\<rfloor> < 1 / 2")
    case True
    then have "round_half_even x = \<lfloor>x\<rfloor>" by (rule rhe_low)
    with f show ?thesis by (simp only:)
  next
    case False
    then have g: "of_int (\<lfloor>x\<rfloor> + 1) - 1 / 2 \<le> x" by simp
    from rhe_cases[of x] show ?thesis
    proof
      assume "round_half_even x = \<lfloor>x\<rfloor>"
      with f show ?thesis by (simp only:)
    next
      assume "round_half_even x = \<lfloor>x\<rfloor> + 1"
      with g show ?thesis by (simp only:)
    qed
  qed
qed

lemma rhe_upper: "x \<le> of_int (round_half_even x) + 1 / 2"
proof -
  have f: "x \<le> of_int (\<lfloor>x\<rfloor> + 1) + 1 / 2" by simp linarith
  show ?thesis
  proof (cases "1 / 2 < x - of_int \<lfloor>x\<rfloor>")
    case True
    then have "round_half_even x = \<lfloor>x\<rfloor> + 1" by (rule rhe_high)
    with f show ?thesis by (simp only:)
  next
    case False
    then have g: "x \<le> of_int \<lfloor>x\<rfloor> + 1 / 2" by simp
    from rhe_cases[of x] show ?thesis
    proof
      assume "round_half_even x = \<lfloor>x\<rfloor>"
      with g show ?thesis by (simp only:)
    next
      assume "round_half_even x = \<lfloor>x\<rfloor> + 1"
      with f show ?thesis by (simp only:)
    qed
  qed
qed

lemma rhe_eqI:
  assumes "\<bar>x - of_int k\<bar> < 1 / 2"
  shows "round_half_even x = k"
proof -
  have "(of_int (round_half_even x) :: rat) < of_int k + 1"
    using rhe_lower[of x] assms by linarith
  then have "(of_int (round_half_even x) :: rat) < of_int (k + 1)" by simp
  then have 1: "round_half_even x < k + 1" by (simp only: of_int_less_iff)
  have "(of_int k :: rat) < of_int (round_half_even x) + 1"
    using rhe_upper[of x] assms by linarith
  then have "(of_int k :: rat) < of_int (round_half_even x + 1)" by simp
  then have 2: "k < round_half_even x + 1" by (simp only: of_int_less_iff)
  from 1 2 show ?thesis by simp
qed

lemma rhe_of_int: "round_half_even (of_int k) = k"
  by (rule rhe_eqI) simp

lemma rhe_mono:
  assumes "x \<le> y"
  shows "round_half_even x \<le> round_half_even y"
proof (cases "\<lfloor>x\<rfloor> = \<lfloor>y\<rfloor>")
  case True
  have "x - of_int \<lfloor>y\<rfloor> \<le> y - of_int \<lfloor>y\<rfloor>" using assms by simp
  then show ?thesis
    by (auto simp add: round_half_even_def Let_def True)
next
  case False
  then have "\<lfloor>x\<rfloor> < \<lfloor>y\<rfloor>" using floor_mono[OF assms] by simp
  moreover have "round_half_even x \<le> \<lfloor>x\<rfloor> + 1" using rhe_cases[of x] by auto
  moreover have "\<lfloor>y\<rfloor> \<le> round_half_even y" using rhe_cases[of y] by auto
  ultimately show ?thesis by simp
qed

lemma round_mag_nearest:
  "q \<noteq> 0 \<Longrightarrow> round_mag q = (if 2 powi 1024 \<le> nearest q then None else Some (nearest q))"
  by (simp add: round_mag_def nearest_def Let_def)

lemma ulp_exp_mono: "0 < p \<Longrightarrow> p \<le> q \<Longrightarrow> ulp_exp p \<le> ulp_exp q"
  using ilog2_mono[of p q] by (simp add: ulp_exp_def)

lemma nearest_mono:
  assumes "0 < p" "p \<le> q"
  shows "nearest p \<le> nearest q"
proof (cases "ulp_exp p = ulp_exp q")
  case True
  have "p / 2 powi ulp_exp q \<le> q / 2 powi ulp_exp q"
    using assms(2) by (simp add: divide_right_mono)
  then have "round_half_even (p / 2 powi ulp_exp q) \<le> round_half_even (q / 2 powi ulp_exp q)"
    by (rule rhe_mono)
  then have "(of_int (round_half_even (p / 2 powi ulp_exp q)) :: rat)
      \<le> of_int (round_half_even (q / 2 powi ulp_exp q))"
    by (simp only: of_int_le_iff)
  then show ?thesis
    by (simp add: nearest_def True mult_right_mono)
next
  case False
  have q: "0 < q" using assms by simp
  define up where "up = ulp_exp p"
  define uq where "uq = ulp_exp q"
  define ep where "ep = ilog2 p"
  define eq where "eq = ilog2 q"
  have lt: "up < uq" using False ulp_exp_mono[OF assms] by (simp add: up_def uq_def)
  have lt': "max (ep - 52) (- 1074) < max (eq - 52) (- 1074)"
    using lt by (simp only: up_def uq_def ep_def eq_def ulp_exp_def)
  have uq: "uq = eq - 52" using lt' unfolding uq_def eq_def ulp_exp_def by linarith
  have epq: "ep + 1 \<le> eq" using lt' by linarith
  \<comment> \<open>the larger argument rounds to at least \<open>2^eq\<close>\<close>
  have "(2::rat) powi eq \<le> q" unfolding eq_def by (rule ilog2_bounds[OF q])
  then have "(2::rat) powi eq / 2 powi uq \<le> q / 2 powi uq" by (simp add: divide_right_mono)
  moreover have "(2::rat) powi eq / 2 powi uq = of_int (2 ^ 52)"
    by (simp add: uq flip: power_int_diff)
  ultimately have "of_int (2 ^ 52) \<le> q / 2 powi uq" by simp
  then have "round_half_even (of_int (2 ^ 52)) \<le> round_half_even (q / 2 powi uq)"
    by (rule rhe_mono)
  then have "2 ^ 52 \<le> round_half_even (q / 2 powi uq)" by (simp only: rhe_of_int)
  then have "(of_int (2 ^ 52) :: rat) \<le> of_int (round_half_even (q / 2 powi uq))"
    by (simp only: of_int_le_iff)
  then have "of_int (2 ^ 52) * (2::rat) powi uq \<le> nearest q"
    by (simp add: nearest_def uq_def mult_right_mono)
  moreover have "of_int (2 ^ 52) * (2::rat) powi uq = 2 powi eq"
    using power_int_add[of "2::rat" 52 uq] by (simp add: uq)
  ultimately have hi: "2 powi eq \<le> nearest q" by simp
  \<comment> \<open>the smaller argument rounds to at most \<open>2^eq\<close>\<close>
  define n where "n = nat (eq - up)"
  have n: "int n = eq - up" using lt uq by (simp add: n_def)
  have pn: "(2::rat) powi (eq - up) = 2 ^ n" unfolding n[symmetric] by (rule power_int_of_nat)
  have "p < 2 powi (ep + 1)" unfolding ep_def by (rule ilog2_bounds[OF assms(1)])
  also have "\<dots> \<le> 2 powi eq" using epq by (rule pow2_mono)
  finally have "p / 2 powi up \<le> 2 powi eq / 2 powi up" by (simp add: divide_right_mono)
  moreover have "(2::rat) powi eq / 2 powi up = of_int (2 ^ n)"
    by (simp add: pn flip: power_int_diff)
  ultimately have "p / 2 powi up \<le> of_int (2 ^ n)" by simp
  then have "round_half_even (p / 2 powi up) \<le> round_half_even (of_int (2 ^ n))"
    by (rule rhe_mono)
  then have "round_half_even (p / 2 powi up) \<le> 2 ^ n" by (simp only: rhe_of_int)
  then have "(of_int (round_half_even (p / 2 powi up)) :: rat) \<le> of_int (2 ^ n)"
    by (simp only: of_int_le_iff)
  then have "nearest p \<le> of_int (2 ^ n) * 2 powi up"
    by (simp add: nearest_def up_def mult_right_mono)
  moreover have "of_int (2 ^ n) * (2::rat) powi up = 2 powi eq"
    using power_int_add[of "2::rat" "eq - up" up] by (simp add: pn)
  ultimately have "nearest p \<le> 2 powi eq" by simp
  with hi show ?thesis by simp
qed

lemma round_mag_eqI:
  assumes "0 < q" "2 powi e \<le> q" "q < 2 powi (e + 1)"
    and "u = max (e - 52) (- 1074)"
    and "\<bar>q / 2 powi u - of_int k\<bar> < 1 / 2"
    and "of_int k * 2 powi u < (2::rat) powi 1024"
  shows "round_mag q = Some (of_int k * 2 powi u)"
proof -
  have u: "ulp_exp q = u" using ilog2_unique[OF assms(1-3)] assms(4) by (simp add: ulp_exp_def)
  have "nearest q = of_int k * 2 powi u"
    using rhe_eqI[OF assms(5)] by (simp add: nearest_def u)
  then show ?thesis using assms(1,6) by (simp add: round_mag_nearest del: power_int_numeral)
qed

lemma round_double_mono:
  assumes "0 < p" "p \<le> q"
  shows "float_le (round_double False p) (round_double False q)"
proof -
  have n: "nearest p \<le> nearest q" using assms by (rule nearest_mono)
  have p: "p \<noteq> 0" and q: "q \<noteq> 0" using assms by simp_all
  show ?thesis
  proof (cases "2 powi 1024 \<le> nearest q")
    case True
    then have rq: "round_double False q = Infinite False"
      by (simp add: round_double_def round_mag_nearest[OF q] del: power_int_numeral)
    show ?thesis
    proof (cases "2 powi 1024 \<le> nearest p")
      case True
      then have "round_double False p = Infinite False"
        by (simp add: round_double_def round_mag_nearest[OF p] del: power_int_numeral)
      with rq show ?thesis by (simp add: float_le_def)
    next
      case False
      then have "round_double False p = Finite False (nearest p)"
        by (simp add: round_double_def round_mag_nearest[OF p] del: power_int_numeral)
      with rq False show ?thesis by (simp add: float_le_def del: power_int_numeral)
    qed
  next
    case False
    then have rq: "round_double False q = Finite False (nearest q)"
      by (simp add: round_double_def round_mag_nearest[OF q] del: power_int_numeral)
    from False n have "\<not> 2 powi 1024 \<le> nearest p" by simp
    then have "round_double False p = Finite False (nearest p)"
      by (simp add: round_double_def round_mag_nearest[OF p] del: power_int_numeral)
    with rq n show ?thesis by (simp add: float_le_def)
  qed
qed

lemma round_mag_one: "round_mag 1 = Some 1"
  using round_mag_eqI[of 1 0 "- 52" "2 ^ 52"] by simp

section \<open>The floats of the data and their quotients\<close>

text \<open>
  Each rounding is checked through \<open>round_mag_eqI\<close>: the binary exponent of the exact
  value and the integer it rounds to, in units of the last place, are given, and the
  inequalities that make them right are decided by arithmetic on numerals.
\<close>

lemma lit_32_83: "float_lit (3283 / 100) = Finite False (2310205871352709 / 70368744177664)"
  using round_mag_eqI[of "3283 / 100" "5" "- 47" "4620411742705418"]
  by (simp add: float_lit_def round_double_def)

lemma lit_15_95: "float_lit (1595 / 100) = Finite False (4489525878534963 / 281474976710656)"
  using round_mag_eqI[of "1595 / 100" "3" "- 49" "8979051757069926"]
  by (simp add: float_lit_def round_double_def)

lemma lit_9_56: "float_lit (956 / 100) = Finite False (5381801554707743 / 562949953421312)"
  using round_mag_eqI[of "956 / 100" "3" "- 49" "5381801554707743"]
  by (simp add: float_lit_def round_double_def)

lemma lit_6_31: "float_lit (631 / 100) = Finite False (7104428412176957 / 1125899906842624)"
  using round_mag_eqI[of "631 / 100" "2" "- 50" "7104428412176957"]
  by (simp add: float_lit_def round_double_def)

lemma lit_7: "float_lit 7 = Finite False 7"
  using round_mag_eqI[of "7" "2" "- 50" "7881299347898368"]
  by (simp add: float_lit_def round_double_def)

lemma lit_7_next: "float_lit (7000000000000001 / 1000000000000000) = Finite False (7881299347898369 / 1125899906842624)"
  using round_mag_eqI[of "7000000000000001 / 1000000000000000" "2" "- 50" "7881299347898369"]
  by (simp add: float_lit_def round_double_def)

lemma div_32_83_15_95:
  "ieee_div (Finite False (2310205871352709 / 70368744177664)) (Finite False (4489525878534963 / 281474976710656)) = Finite False (579361974006949 / 281474976710656)"
  using round_mag_eqI[of "(2310205871352709 / 70368744177664) / (4489525878534963 / 281474976710656)" "1" "- 51" "4634895792055592"]
  by (simp add: round_double_def)

lemma div_32_83_9_56:
  "ieee_div (Finite False (2310205871352709 / 70368744177664)) (Finite False (5381801554707743 / 562949953421312)) = Finite False (1933226670588041 / 562949953421312)"
  using round_mag_eqI[of "(2310205871352709 / 70368744177664) / (5381801554707743 / 562949953421312)" "1" "- 51" "7732906682352164"]
  by (simp add: round_double_def)

lemma div_32_83_6_31:
  "ieee_div (Finite False (2310205871352709 / 70368744177664)) (Finite False (7104428412176957 / 1125899906842624)) = Finite False (5857891274428423 / 1125899906842624)"
  using round_mag_eqI[of "(2310205871352709 / 70368744177664) / (7104428412176957 / 1125899906842624)" "2" "- 50" "5857891274428423"]
  by (simp add: round_double_def)

lemma div_32_83_7:
  "ieee_div (Finite False (2310205871352709 / 70368744177664)) (Finite False 7) =
     Finite False (2640235281545953 / 562949953421312)"
  using round_mag_eqI[of "(2310205871352709 / 70368744177664) / 7" "2" "- 50" "5280470563091906"]
  by (simp add: round_double_def)

lemma div_32_83_7_next:
  "ieee_div (Finite False (2310205871352709 / 70368744177664)) (Finite False (7881299347898369 / 1125899906842624)) =
     Finite False (2640235281545953 / 562949953421312)"
  using round_mag_eqI[of "(2310205871352709 / 70368744177664) / (7881299347898369 / 1125899906842624)" "2" "- 50" "5280470563091906"]
  by (simp add: round_double_def)

lemma fmt_s0: "format_2f (Finite False 1) = ''1.00''"
  using rhe_eqI[of "1 * 100" 100]
  by (simp add: decimal.simps digit_char_def Let_def)

lemma fmt_s1: "format_2f (Finite False (579361974006949 / 281474976710656)) = ''2.06''"
  using rhe_eqI[of "579361974006949 / 281474976710656 * 100" 206]
  by (simp add: decimal.simps digit_char_def Let_def)

lemma fmt_s2: "format_2f (Finite False (1933226670588041 / 562949953421312)) = ''3.43''"
  using rhe_eqI[of "1933226670588041 / 562949953421312 * 100" 343]
  by (simp add: decimal.simps digit_char_def Let_def)

lemma fmt_s3: "format_2f (Finite False (5857891274428423 / 1125899906842624)) = ''5.20''"
  using rhe_eqI[of "5857891274428423 / 1125899906842624 * 100" 520]
  by (simp add: decimal.simps digit_char_def Let_def)

section \<open>Properties of the script\<close>

lemma quotients_ok:
  "\<not> list_ex is_zero ts \<Longrightarrow> quotients b ts = Inr (map (ieee_div b) ts)"
  by (induction ts) (simp_all add: truediv_def)

lemma quotients_zero:
  "list_ex is_zero ts \<Longrightarrow> quotients b ts = Inl ZeroDivisionError"
proof (induction ts)
  case Nil
  then show ?case by simp
next
  case (Cons t ts)
  show ?case
  proof (cases "is_zero t")
    case True
    then show ?thesis by (simp add: truediv_def)
  next
    case False
    with Cons.prems have "list_ex is_zero ts" by simp
    then have "quotients b ts = Inl ZeroDivisionError" by (rule Cons.IH)
    with False show ?thesis by (simp add: truediv_def)
  qed
qed

lemma speedups_empty: "speedups [] = Inl IndexError"
  by (simp add: speedups_def base_time_def)

lemma speedups_ok:
  "\<not> list_ex is_zero (t # ts) \<Longrightarrow> speedups (t # ts) = Inr (map (ieee_div t) (t # ts))"
  using quotients_ok[of "t # ts" t] by (simp add: speedups_def base_time_def)

lemma speedups_zero:
  "list_ex is_zero tms \<Longrightarrow> speedups tms = Inl ZeroDivisionError"
  using quotients_zero[of tms] by (cases tms) (simp_all add: speedups_def base_time_def)

lemma ieee_div_self:
  assumes "positive t"
  shows "ieee_div t t = Finite False 1"
proof (cases t)
  case (Finite s m)
  with assms have "m \<noteq> 0" by simp
  then show ?thesis by (simp add: Finite round_double_def round_mag_one)
next
  case (Infinite s)
  with assms show ?thesis by simp
next
  case NaN
  with assms show ?thesis by simp
qed

text \<open>
  An infinite elapsed time is not a positive real: for it the quotient of the baseline by
  itself is a NaN, not \<open>1.0\<close>.
\<close>

lemma ieee_div_infinite_self: "ieee_div (Infinite s) (Infinite s) = NaN"
  by simp

lemma div_32_83_32_83:
  "ieee_div (Finite False (2310205871352709 / 70368744177664))
     (Finite False (2310205871352709 / 70368744177664)) = Finite False 1"
  by (rule ieee_div_self) simp

lemma ieee_div_antimono:
  assumes "positive b" "positive x" "positive y" "float_lt x y"
  shows "float_le (ieee_div b y) (ieee_div b x)"
proof -
  from assms(1) obtain m where b: "b = Finite False m" and m: "0 < m" by (cases b) auto
  from assms(2) obtain u where x: "x = Finite False u" and u: "0 < u" by (cases x) auto
  from assms(3) obtain v where y: "y = Finite False v" and v: "0 < v" by (cases y) auto
  from assms(4) have uv: "u < v" by (simp add: float_lt_def x y)
  have 1: "0 < m / v" using m v by simp
  have 2: "m / v \<le> m / u" using m u uv by (simp add: frac_le)
  from round_double_mono[OF 1 2] u v show ?thesis by (simp add: b x y)
qed

lemma positive_not_zero: "positive t \<Longrightarrow> \<not> is_zero t"
  by (cases t) simp_all

lemma all_positive_no_zero: "list_all positive ts \<Longrightarrow> \<not> list_ex is_zero ts"
  by (induction ts) (simp_all add: positive_not_zero)

lemma plt_annotate_loop: "plt (annotate_loop ps w) = plt w @ map annotate ps"
  by (induction ps arbitrary: w) simp_all

lemma stdout_annotate_loop: "stdout (annotate_loop ps w) = stdout w"
  by (induction ps arbitrary: w) simp_all

lemma plt_render:
  "plt (render ths sp w) =
     plt w @
     [Call ''figure'' [] [(''figsize'', PyTuple [PyInt 10, PyInt 6])],
      Call ''plot'' [PyList (map PyInt ths), PyList (map PyInt ths), PyStr ''k--'']
        [(''label'', PyStr ''Ideal Linear Speedup''), (''alpha'', PyFloat (float_lit (5 / 10)))],
      Call ''plot'' [PyList (map PyInt ths), PyList (map PyFloat sp)]
        [(''marker'', PyStr ''o''), (''linewidth'', PyInt 2), (''markersize'', PyInt 8),
         (''color'', PyStr ''#007acc''), (''label'', PyStr ''Actual Speedup'')]] @
     map annotate (zip ths sp) @
     [Call ''title'' [PyStr ''Wa-Tor Simulation Parallel Speedup''] [(''fontsize'', PyInt 14)],
      Call ''xlabel'' [PyStr ''Number of Threads (Workers)''] [(''fontsize'', PyInt 12)],
      Call ''ylabel'' [PyStr ''Speedup Factor''] [(''fontsize'', PyInt 12)],
      Call ''xticks'' [PyList (map PyInt ths)] [],
      Call ''grid'' [PyBool True]
        [(''linestyle'', PyStr ''--''), (''alpha'', PyFloat (float_lit (7 / 10)))],
      Call ''legend'' [] [],
      Call ''savefig'' [PyStr output_filename] [(''dpi'', PyInt 300)]]"
  by (simp add: render_def pyplot_def py_print_def plt_annotate_loop Let_def)

lemma stdout_render:
  "stdout (render ths sp w) = stdout w @ [''Success! Graph saved as '' @ output_filename]"
  by (simp add: render_def pyplot_def py_print_def stdout_annotate_loop Let_def)

lemma func_annotate: "func (annotate p) = ''annotate''"
  by (simp add: annotate_def)

lemma filter_annotate:
  "f \<noteq> ''annotate'' \<Longrightarrow> filter (\<lambda>c. func c = f) (map annotate ps) = []"
  by (induction ps) (auto simp add: func_annotate)

lemma calls_named_render:
  assumes "f \<noteq> ''annotate''"
  shows "calls_named f (render ths sp w) =
     calls_named f w @
     filter (\<lambda>c. func c = f)
       [Call ''figure'' [] [(''figsize'', PyTuple [PyInt 10, PyInt 6])],
        Call ''plot'' [PyList (map PyInt ths), PyList (map PyInt ths), PyStr ''k--'']
          [(''label'', PyStr ''Ideal Linear Speedup''), (''alpha'', PyFloat (float_lit (5 / 10)))],
        Call ''plot'' [PyList (map PyInt ths), PyList (map PyFloat sp)]
          [(''marker'', PyStr ''o''), (''linewidth'', PyInt 2), (''markersize'', PyInt 8),
           (''color'', PyStr ''#007acc''), (''label'', PyStr ''Actual Speedup'')],
        Call ''title'' [PyStr ''Wa-Tor Simulation Parallel Speedup''] [(''fontsize'', PyInt 14)],
        Call ''xlabel'' [PyStr ''Number of Threads (Workers)''] [(''fontsize'', PyInt 12)],
        Call ''ylabel'' [PyStr ''Speedup Factor''] [(''fontsize'', PyInt 12)],
        Call ''xticks'' [PyList (map PyInt ths)] [],
        Call ''grid'' [PyBool True]
          [(''linestyle'', PyStr ''--''), (''alpha'', PyFloat (float_lit (7 / 10)))],
        Call ''legend'' [] [],
        Call ''savefig'' [PyStr output_filename] [(''dpi'', PyInt 300)]]"
  unfolding calls_named_def plt_render filter_append filter_annotate[OF assms]
  by simp

lemma calls_named_annotate_render:
  "calls_named ''annotate'' (render ths sp w) =
     calls_named ''annotate'' w @ map annotate (zip ths sp)"
proof -
  have "filter (\<lambda>c. func c = ''annotate'') (map annotate ps) = map annotate ps" for ps
    by (induction ps) (simp_all add: func_annotate)
  then show ?thesis
    by (simp add: calls_named_def plt_render)
qed

lemma plot_results_ok:
  "\<not> list_ex is_zero (t # ts) \<Longrightarrow>
     plot_results ths (t # ts) w = (None, render ths (map (ieee_div t) (t # ts)) w)"
  using speedups_ok[of t ts] by (simp add: plot_results_def compute_speedups_def)

lemma plot_results_zero:
  "list_ex is_zero tms \<Longrightarrow> plot_results ths tms w = (Some ZeroDivisionError, w)"
  by (simp add: plot_results_def compute_speedups_def speedups_zero)

lemma plot_results_empty: "plot_results ths [] w = (Some IndexError, w)"
  by (simp add: plot_results_def compute_speedups_def speedups_empty)

lemma plot_results_success:
  assumes "fst (plot_results ths tms w) = None"
  shows "\<exists>sp. speedups tms = Inr sp \<and> snd (plot_results ths tms w) = render ths sp w"
  using assms
  by (cases "speedups tms") (simp_all add: plot_results_def compute_speedups_def)

lemma plot_results_cases:
  "plot_results ths tms w =
     (if tms = [] then (Some IndexError, w)
      else if list_ex is_zero tms then (Some ZeroDivisionError, w)
      else (None, render ths (map (ieee_div (hd tms)) tms) w))"
proof (cases tms)
  case Nil
  then show ?thesis by (simp add: plot_results_empty)
next
  case (Cons t ts)
  show ?thesis
  proof (cases "list_ex is_zero tms")
    case True
    then show ?thesis by (simp add: plot_results_zero Cons)
  next
    case False
    then have "\<not> list_ex is_zero (t # ts)" by (simp add: Cons)
    from plot_results_ok[OF this, of ths w] False show ?thesis by (simp add: Cons)
  qed
qed

lemma zip_fst_map_snd:
  "zip (map fst ms) (map (\<lambda>m. g (snd m)) ms) = map (\<lambda>m. (fst m, g (snd m))) ms"
  by (induction ms) simp_all

lemma list_ex_snd: "list_ex is_zero (map snd ms) = list_ex (\<lambda>m. is_zero (snd m)) ms"
  by (induction ms) simp_all

lemma compute_speedups_Inr:
  assumes "compute_speedups tms w = (Inr ys, w')"
  shows "ys = map (ieee_div (tms ! 0)) tms"
proof (cases "list_ex is_zero tms")
  case True
  from speedups_zero[OF this] assms show ?thesis by (simp add: compute_speedups_def)
next
  case False
  show ?thesis
  proof (cases tms)
    case Nil
    with assms show ?thesis by (simp add: compute_speedups_def speedups_empty)
  next
    case (Cons t ts)
    with False have "\<not> list_ex is_zero (t # ts)" by simp
    from speedups_ok[OF this] assms show ?thesis
      by (auto simp add: compute_speedups_def Cons)
  qed
qed

lemma compute_speedups_length:
  assumes "compute_speedups tms w = (Inr ys, w')"
  shows "length ys = length tms"
proof (cases "list_ex is_zero tms")
  case True
  from speedups_zero[OF this] assms show ?thesis by (simp add: compute_speedups_def)
next
  case False
  show ?thesis
  proof (cases tms)
    case Nil
    with assms show ?thesis by (simp add: compute_speedups_def speedups_empty)
  next
    case (Cons t ts)
    with False have "\<not> list_ex is_zero (t # ts)" by simp
    from speedups_ok[OF this] assms show ?thesis
      by (auto simp add: compute_speedups_def Cons)
  qed
qed

lemma times_list_values:
  "times_list =
     [Finite False (2310205871352709 / 70368744177664),
      Finite False (4489525878534963 / 281474976710656),
      Finite False (5381801554707743 / 562949953421312),
      Finite False (7104428412176957 / 1125899906842624)]"
  by (simp only: times_list_def lit_32_83 lit_15_95 lit_9_56 lit_6_31)

lemma speedups_sample:
  "speedups times_list =
     Inr [Finite False 1,
           Finite False (579361974006949 / 281474976710656),
           Finite False (1933226670588041 / 562949953421312),
           Finite False (5857891274428423 / 1125899906842624)]"
proof -
  have "\<not> list_ex is_zero
     [Finite False (2310205871352709 / 70368744177664),
      Finite False (4489525878534963 / 281474976710656),
      Finite False (5381801554707743 / 562949953421312),
      Finite False (7104428412176957 / 1125899906842624)]" by simp
  from speedups_ok[OF this] show ?thesis
    by (simp only: times_list_values list.map div_32_83_32_83 div_32_83_15_95 div_32_83_9_56
        div_32_83_6_31)
qed

lemma main_sample:
  "main w = (None, render threads
     [Finite False 1,
           Finite False (579361974006949 / 281474976710656),
           Finite False (1933226670588041 / 562949953421312),
           Finite False (5857891274428423 / 1125899906842624)] w)"
  by (simp add: main_def plot_results_def compute_speedups_def speedups_sample)

lemma compute_close_times:
  "compute_speedups
     [float_lit (3283 / 100), float_lit 7, float_lit (7000000000000001 / 1000000000000000)] init_world =
   (Inr [Finite False 1, Finite False (2640235281545953 / 562949953421312),
         Finite False (2640235281545953 / 562949953421312)], init_world)"
proof -
  have "\<not> list_ex is_zero [Finite False (2310205871352709 / 70368744177664), Finite False 7,
      Finite False (7881299347898369 / 1125899906842624)]" by simp
  from speedups_ok[OF this] have
    "speedups [Finite False (2310205871352709 / 70368744177664), Finite False 7,
       Finite False (7881299347898369 / 1125899906842624)]
      = Inr [Finite False 1, Finite False (2640235281545953 / 562949953421312),
         Finite False (2640235281545953 / 562949953421312)]"
    by (simp only: list.map div_32_83_32_83 div_32_83_7 div_32_83_7_next)
  then show ?thesis
    by (simp only: compute_speedups_def lit_32_83 lit_7 lit_7_next)
qed

lemma lines_7_8_outcome: "outcome (lines_7_8 s) = speedups (times_g s)"
proof (cases "times_g s")
  case Nil
  then show ?thesis
    by (simp add: lines_7_8_def stmt_base_time_def outcome_def speedups_def base_time_def)
next
  case (Cons t ts)
  then show ?thesis
    by (cases "quotients t (t # ts)")
      (simp_all add: lines_7_8_def stmt_base_time_def stmt_speedups_def outcome_def
        speedups_def base_time_def del: quotients.simps)
qed

lemma lines_7_8_Nil: "times_g s = [] \<Longrightarrow> lines_7_8 s = Inl IndexError"
  by (simp add: lines_7_8_def stmt_base_time_def)

lemma lines_7_8_Cons:
  assumes "times_g s = t # ts"
  shows "lines_7_8 s =
     (case quotients t (t # ts) of
        Inl e \<Rightarrow> Inl e
      | Inr ys \<Rightarrow> Inr (s\<lparr>base_time_g := t, speedups_g := ys\<rparr>))"
proof -
  have 1: "stmt_base_time s = Inr (s\<lparr>base_time_g := t\<rparr>)"
    by (simp add: stmt_base_time_def assms)
  have 2: "stmt_speedups (s\<lparr>base_time_g := t\<rparr>) =
     (case quotients t (t # ts) of
        Inl e \<Rightarrow> Inl e
      | Inr ys \<Rightarrow> Inr (s\<lparr>base_time_g := t, speedups_g := ys\<rparr>))"
    unfolding stmt_speedups_def by (simp add: assms del: quotients.simps)
  show ?thesis unfolding lines_7_8_def 1 using 2 by (simp only: sum.case)
qed

lemma lines_7_8_Inr:
  assumes "lines_7_8 s = Inr s'"
  shows "\<exists>t ts ys. times_g s = t # ts \<and> quotients t (t # ts) = Inr ys \<and>
           s' = s\<lparr>base_time_g := t, speedups_g := ys\<rparr>"
proof (cases "times_g s")
  case Nil
  from lines_7_8_Nil[OF this] assms show ?thesis by simp
next
  case (Cons t ts)
  show ?thesis
  proof (cases "quotients t (t # ts)")
    case (Inl e)
    with lines_7_8_Cons[OF Cons] assms show ?thesis by (simp only: sum.case) simp
  next
    case (Inr ys)
    with lines_7_8_Cons[OF Cons] assms have "s' = s\<lparr>base_time_g := t, speedups_g := ys\<rparr>"
      by (simp only: sum.case sum.inject)
    with Cons Inr show ?thesis by blast
  qed
qed

lemma lines_7_8_again:
  assumes "lines_7_8 s = Inr s'"
  shows "lines_7_8 s' = Inr s'"
proof -
  from lines_7_8_Inr[OF assms] obtain t ts ys where
    t: "times_g s = t # ts" and q: "quotients t (t # ts) = Inr ys"
    and s': "s' = s\<lparr>base_time_g := t, speedups_g := ys\<rparr>" by blast
  have t': "times_g s' = t # ts" unfolding s' using t by simp
  have "s'\<lparr>base_time_g := t, speedups_g := ys\<rparr> = s'" unfolding s' by simp
  with lines_7_8_Cons[OF t'] q show ?thesis by (simp only: sum.case)
qed

lemma lines_7_8_frame:
  assumes "lines_7_8 s = Inr s'"
  shows "times_g s' = times_g s \<and> threads_g s' = threads_g s \<and>
         plt s' = plt s \<and> stdout s' = stdout s"
proof -
  from lines_7_8_Inr[OF assms] obtain t ts ys where
    s': "s' = s\<lparr>base_time_g := t, speedups_g := ys\<rparr>" by blast
  show ?thesis unfolding s' by simp
qed

lemma annotate_labels_zip:
  "length ths = length sp \<Longrightarrow>
     concat (map (\<lambda>c. take 1 (args c)) (map annotate (zip ths sp))) =
     map (\<lambda>y. PyStr (format_2f y @ ''x'')) sp"
  by (induction ths sp rule: list_induct2) (simp_all add: annotate_def del: format_2f.simps)

lemma annotate_values_zip:
  "length ths = length sp \<Longrightarrow>
     concat (map (\<lambda>c. concat (map point_y (drop 1 (args c)))) (map annotate (zip ths sp))) =
     map PyFloat sp"
  by (induction ths sp rule: list_induct2) (simp_all add: annotate_def del: format_2f.simps)

lemma annotation_labels_render:
  assumes "length ths = length sp"
  shows "annotation_labels (render ths sp w) =
     annotation_labels w @ map (\<lambda>y. PyStr (format_2f y @ ''x'')) sp"
  using annotate_labels_zip[OF assms]
  by (simp only: annotation_labels_def calls_named_annotate_render map_append concat_append)

lemma annotated_values_render:
  assumes "length ths = length sp"
  shows "annotated_values (render ths sp w) = annotated_values w @ map PyFloat sp"
  using annotate_values_zip[OF assms]
  by (simp only: annotated_values_def calls_named_annotate_render map_append concat_append)

lemma curve_values_render:
  "curve_values (render ths sp w) = curve_values w @ [PyList (map PyFloat sp)]"
  by (simp add: curve_values_def calls_named_render)

lemma plot_results_Inl:
  "speedups tms = Inl e \<Longrightarrow> plot_results ths tms w = (Some e, w)"
  by (simp add: plot_results_def compute_speedups_def)

lemma plot_results_Inr:
  "speedups tms = Inr sp \<Longrightarrow> plot_results ths tms w = (None, render ths sp w)"
  by (simp add: plot_results_def compute_speedups_def)

lemma speedups_length: "speedups tms = Inr sp \<Longrightarrow> length sp = length tms"
  using compute_speedups_length[of tms init_world sp init_world]
  by (simp add: compute_speedups_def)

section \<open>The claims\<close>

text \<open>
  C1. For a non-empty sequence of measurements \<open>ms\<close> (pairs of a worker count and an
  elapsed time) none of whose elapsed times is zero, the speedup computation succeeds, and
  pairing the workers with its result, as the script does in \<^verbatim>\<open>zip(threads, speedups)\<close>,
  gives a sequence of the length and in the order of \<open>ms\<close> whose element for the
  measurement \<open>m\<close> is the worker count of \<open>m\<close> with the quotient of the first elapsed
  time by the elapsed time of \<open>m\<close>.
\<close>

theorem speedups_elementwise:
  assumes "ms \<noteq> []" and "\<not> list_ex (\<lambda>m. is_zero (snd m)) ms"
  shows "\<exists>ys. compute_speedups (map snd ms) w = (Inr ys, w) \<and> length ys = length ms \<and>
           zip (map fst ms) ys = map (\<lambda>m. (fst m, ieee_div (snd (hd ms)) (snd m))) ms"
proof -
  from assms(1) obtain m rest where ms: "ms = m # rest" by (cases ms) auto
  define ys where "ys = map (\<lambda>m. ieee_div (snd (hd ms)) (snd m)) ms"
  have "\<not> list_ex is_zero (snd m # map snd rest)"
    using assms(2) list_ex_snd[of ms] by (simp add: ms)
  then have "speedups (snd m # map snd rest) = Inr (map (ieee_div (snd m)) (snd m # map snd rest))"
    by (rule speedups_ok)
  then have "compute_speedups (map snd ms) w = (Inr ys, w)"
    by (simp add: compute_speedups_def ms ys_def)
  moreover have "length ys = length ms" by (simp add: ys_def)
  moreover have "zip (map fst ms) ys = map (\<lambda>m. (fst m, ieee_div (snd (hd ms)) (snd m))) ms"
    unfolding ys_def by (rule zip_fst_map_snd)
  ultimately show ?thesis by blast
qed

theorem speedups_elementwise_witness:
  "compute_speedups [Finite False 3, Finite False 2] init_world =
     (Inr [ieee_div (Finite False 3) (Finite False 3), ieee_div (Finite False 3) (Finite False 2)],
      init_world)"
proof -
  have 1: "[(1::int, Finite False 3), (2, Finite False 2)] \<noteq> []" by simp
  have 2: "\<not> list_ex (\<lambda>m. is_zero (snd m)) [(1::int, Finite False 3), (2, Finite False 2)]"
    by simp
  from speedups_elementwise[OF 1 2, of init_world] obtain ys where
    c: "compute_speedups (map snd [(1::int, Finite False 3), (2, Finite False 2)]) init_world
          = (Inr ys, init_world)"
    and z: "zip (map fst [(1::int, Finite False 3), (2, Finite False 2)]) ys =
          map (\<lambda>m. (fst m, ieee_div (snd (hd [(1::int, Finite False 3), (2, Finite False 2)])) (snd m)))
            [(1::int, Finite False 3), (2, Finite False 2)]"
    and l: "length ys = length [(1::int, Finite False 3), (2, Finite False 2)]"
    by blast
  from l obtain a b where ys: "ys = [a, b]"
    by (cases ys; cases "tl ys") auto
  from z have "a = ieee_div (Finite False 3) (Finite False 3)"
    and "b = ieee_div (Finite False 3) (Finite False 2)"
    by (simp_all add: ys del: ieee_div.simps)
  with c ys show ?thesis by (simp del: ieee_div.simps)
qed

text \<open>
  C2. For a non-empty sequence of positive elapsed times the first speedup is the float
  \<open>1.0\<close>, that is \<open>Finite False 1\<close>, exactly; a single measurement gives the one
  speedup \<open>1.0\<close>.
\<close>

theorem first_speedup_is_one:
  assumes "list_all positive (t # ts)"
  shows "(\<exists>ys. compute_speedups (t # ts) w = (Inr (Finite False 1 # ys), w) \<and> length ys = length ts)
       \<and> compute_speedups [t] w = (Inr [Finite False 1], w)"
proof -
  from assms have t: "positive t" by simp
  have nz: "\<not> list_ex is_zero (t # ts)" using assms by (rule all_positive_no_zero)
  have nz1: "\<not> list_ex is_zero [t]" using t by (simp add: positive_not_zero)
  have "compute_speedups (t # ts) w = (Inr (Finite False 1 # map (ieee_div t) ts), w)"
    using speedups_ok[OF nz] ieee_div_self[OF t] by (simp add: compute_speedups_def)
  moreover have "compute_speedups [t] w = (Inr [Finite False 1], w)"
    using speedups_ok[OF nz1] ieee_div_self[OF t] by (simp add: compute_speedups_def)
  ultimately show ?thesis by simp
qed

theorem first_speedup_is_one_witness:
  "(\<exists>ys. compute_speedups [Finite False (3 / 2), Finite False 3] init_world
            = (Inr (Finite False 1 # ys), init_world) \<and> length ys = 1)
   \<and> compute_speedups [Finite False (3 / 2)] init_world = (Inr [Finite False 1], init_world)"
proof -
  have "list_all positive [Finite False (3 / 2), Finite False 3]" by simp
  from first_speedup_is_one[OF this, of init_world] show ?thesis by simp
qed

text \<open>
  C3. A dataset with an elapsed time equal to zero at any position makes the script fail
  with ZeroDivisionError; the plotting library and the console are as they were before the
  run, so nothing was rendered and no image was saved.
\<close>

theorem zero_elapsed_raises:
  assumes "list_ex is_zero tms"
  shows "plot_results ths tms w = (Some ZeroDivisionError, w) \<and>
         calls_named ''savefig'' (snd (plot_results ths tms w)) = calls_named ''savefig'' w"
  using assms by (simp add: plot_results_zero)

theorem zero_elapsed_raises_witness:
  "plot_results [1, 2] [Finite False 3, Finite True 0] init_world
     = (Some ZeroDivisionError, init_world) \<and>
   calls_named ''savefig''
     (snd (plot_results [1, 2] [Finite False 3, Finite True 0] init_world))
     = calls_named ''savefig'' init_world"
proof -
  have "list_ex is_zero [Finite False 3, Finite True 0]" by simp
  then show ?thesis by (rule zero_elapsed_raises)
qed

text \<open>
  C4, as amended. The script validates nothing and has no InvalidInputError. An empty
  sequence of elapsed times makes it fail with IndexError and a zero elapsed time with
  ZeroDivisionError, in both cases with the plotting library and the console untouched;
  every other dataset (as many workers as elapsed times), whatever the order of its
  workers and the sign of its elapsed times, is rendered and saved.
\<close>

theorem rejected_inputs:
  "(tms = [] \<longrightarrow> plot_results ths tms w = (Some IndexError, w)) \<and>
   (list_ex is_zero tms \<longrightarrow> plot_results ths tms w = (Some ZeroDivisionError, w)) \<and>
   (length ths = length tms \<and> tms \<noteq> [] \<and> \<not> list_ex is_zero tms \<longrightarrow>
      fst (plot_results ths tms w) = None \<and>
      calls_named ''savefig'' (snd (plot_results ths tms w)) =
        calls_named ''savefig'' w @ [Call ''savefig'' [PyStr output_filename] [(''dpi'', PyInt 300)]])"
proof -
  have "calls_named ''savefig'' (render ths sp w) =
      calls_named ''savefig'' w @ [Call ''savefig'' [PyStr output_filename] [(''dpi'', PyInt 300)]]"
    for sp
    by (simp add: calls_named_render)
  then show ?thesis
    by (simp add: plot_results_cases)
qed

theorem rejected_inputs_witness:
  "plot_results [] [] init_world = (Some IndexError, init_world) \<and>
   plot_results [1] [Finite False 0] init_world = (Some ZeroDivisionError, init_world) \<and>
   fst (plot_results [2, 1] [Finite False 1, Finite True 1] init_world) = None \<and>
   calls_named ''savefig'' (snd (plot_results [2, 1] [Finite False 1, Finite True 1] init_world)) =
     [Call ''savefig'' [PyStr output_filename] [(''dpi'', PyInt 300)]]"
  using rejected_inputs[of "[]" "[]" init_world]
    rejected_inputs[of "[Finite False 0]" "[1]" init_world]
    rejected_inputs[of "[Finite False 1, Finite True 1]" "[2, 1]" init_world]
  by (simp add: calls_named_def init_world_def)

text \<open>
  C4 as stated fails: with workers \<open>2, 1\<close>, which are not strictly increasing, and the
  elapsed times \<open>1.0\<close> and \<open>-1.0\<close>, one of them negative, the script raises nothing
  and saves the image.
\<close>

theorem unvalidated_input_counterexample:
  "\<not> sorted_wrt (<) [2, 1 :: int] \<and>
   fst (plot_results [2, 1] [Finite False 1, Finite True 1] init_world) = None \<and>
   calls_named ''savefig'' (snd (plot_results [2, 1] [Finite False 1, Finite True 1] init_world)) =
     [Call ''savefig'' [PyStr ''results_graph.png''] [(''dpi'', PyInt 300)]]"
  by (simp add: plot_results_cases calls_named_render output_filename_def)
    (simp add: calls_named_def init_world_def)

text \<open>
  C5, as amended. On the data of the script the speedups are the four quotients of
  \<open>32.83\<close> by \<open>32.83\<close>, \<open>15.95\<close>, \<open>9.56\<close> and \<open>6.31\<close>, approximately
  \<open>1.000\<close>, \<open>2.058\<close>, \<open>3.434\<close> and \<open>5.203\<close>; the run succeeds; the curve with
  markers has the x-values 1, 2, 4, 8; the four annotations are \<open>1.00x\<close>, \<open>2.06x\<close>,
  \<open>3.43x\<close>, \<open>5.20x\<close>, each at its point, shifted ten points upwards and centred; the
  ticks of the x-axis are 1, 2, 4, 8.
\<close>

theorem sample_run:
  "compute_speedups times_list init_world =
     (Inr [ieee_div (float_lit (3283 / 100)) (float_lit (3283 / 100)),
           ieee_div (float_lit (3283 / 100)) (float_lit (1595 / 100)),
           ieee_div (float_lit (3283 / 100)) (float_lit (956 / 100)),
           ieee_div (float_lit (3283 / 100)) (float_lit (631 / 100))], init_world) \<and>
   approx 1 (ieee_div (float_lit (3283 / 100)) (float_lit (3283 / 100))) \<and>
   approx (2058 / 1000) (ieee_div (float_lit (3283 / 100)) (float_lit (1595 / 100))) \<and>
   approx (3434 / 1000) (ieee_div (float_lit (3283 / 100)) (float_lit (956 / 100))) \<and>
   approx (5203 / 1000) (ieee_div (float_lit (3283 / 100)) (float_lit (631 / 100))) \<and>
   fst (main init_world) = None \<and>
   calls_named ''plot'' (snd (main init_world)) =
     [Call ''plot'' [PyList [PyInt 1, PyInt 2, PyInt 4, PyInt 8],
                     PyList [PyInt 1, PyInt 2, PyInt 4, PyInt 8], PyStr ''k--'']
        [(''label'', PyStr ''Ideal Linear Speedup''), (''alpha'', PyFloat (float_lit (5 / 10)))],
      Call ''plot'' [PyList [PyInt 1, PyInt 2, PyInt 4, PyInt 8],
                     PyList [PyFloat (Finite False 1), PyFloat (Finite False (579361974006949 / 281474976710656)),
                             PyFloat (Finite False (1933226670588041 / 562949953421312)), PyFloat (Finite False (5857891274428423 / 1125899906842624))]]
        [(''marker'', PyStr ''o''), (''linewidth'', PyInt 2), (''markersize'', PyInt 8),
         (''color'', PyStr ''#007acc''), (''label'', PyStr ''Actual Speedup'')]] \<and>
   calls_named ''annotate'' (snd (main init_world)) =
     [Call ''annotate'' [PyStr ''1.00x'', PyTuple [PyInt 1, PyFloat (Finite False 1)]]
        [(''textcoords'', PyStr ''offset points''), (''xytext'', PyTuple [PyInt 0, PyInt 10]),
         (''ha'', PyStr ''center''), (''fontsize'', PyInt 10), (''fontweight'', PyStr ''bold'')],
      Call ''annotate'' [PyStr ''2.06x'', PyTuple [PyInt 2, PyFloat (Finite False (579361974006949 / 281474976710656))]]
        [(''textcoords'', PyStr ''offset points''), (''xytext'', PyTuple [PyInt 0, PyInt 10]),
         (''ha'', PyStr ''center''), (''fontsize'', PyInt 10), (''fontweight'', PyStr ''bold'')],
      Call ''annotate'' [PyStr ''3.43x'', PyTuple [PyInt 4, PyFloat (Finite False (1933226670588041 / 562949953421312))]]
        [(''textcoords'', PyStr ''offset points''), (''xytext'', PyTuple [PyInt 0, PyInt 10]),
         (''ha'', PyStr ''center''), (''fontsize'', PyInt 10), (''fontweight'', PyStr ''bold'')],
      Call ''annotate'' [PyStr ''5.20x'', PyTuple [PyInt 8, PyFloat (Finite False (5857891274428423 / 1125899906842624))]]
        [(''textcoords'', PyStr ''offset points''), (''xytext'', PyTuple [PyInt 0, PyInt 10]),
         (''ha'', PyStr ''center''), (''fontsize'', PyInt 10), (''fontweight'', PyStr ''bold'')]] \<and>
   calls_named ''xticks'' (snd (main init_world)) =
     [Call ''xticks'' [PyList [PyInt 1, PyInt 2, PyInt 4, PyInt 8]] []]"
proof -
  have e: "calls_named f init_world = []" for f
    by (simp add: calls_named_def init_world_def)
  have c: "compute_speedups times_list init_world =
     (Inr [ieee_div (float_lit (3283 / 100)) (float_lit (3283 / 100)),
           ieee_div (float_lit (3283 / 100)) (float_lit (1595 / 100)),
           ieee_div (float_lit (3283 / 100)) (float_lit (956 / 100)),
           ieee_div (float_lit (3283 / 100)) (float_lit (631 / 100))], init_world)"
    by (simp only: compute_speedups_def speedups_sample lit_32_83 lit_15_95 lit_9_56 lit_6_31
        div_32_83_32_83 div_32_83_15_95 div_32_83_9_56 div_32_83_6_31)
  have a0: "approx 1 (ieee_div (float_lit (3283 / 100)) (float_lit (3283 / 100)))"
    by (simp only: lit_32_83 div_32_83_32_83) (simp add: approx_def)
  have a1: "approx (2058 / 1000) (ieee_div (float_lit (3283 / 100)) (float_lit (1595 / 100)))"
    by (simp only: lit_32_83 lit_15_95 div_32_83_15_95) (simp add: approx_def)
  have a2: "approx (3434 / 1000) (ieee_div (float_lit (3283 / 100)) (float_lit (956 / 100)))"
    by (simp only: lit_32_83 lit_9_56 div_32_83_9_56) (simp add: approx_def)
  have a3: "approx (5203 / 1000) (ieee_div (float_lit (3283 / 100)) (float_lit (631 / 100)))"
    by (simp only: lit_32_83 lit_6_31 div_32_83_6_31) (simp add: approx_def)
  have m: "fst (main init_world) = None" by (simp add: main_sample)
  have p: "calls_named ''plot'' (snd (main init_world)) =
     [Call ''plot'' [PyList [PyInt 1, PyInt 2, PyInt 4, PyInt 8],
                     PyList [PyInt 1, PyInt 2, PyInt 4, PyInt 8], PyStr ''k--'']
        [(''label'', PyStr ''Ideal Linear Speedup''), (''alpha'', PyFloat (float_lit (5 / 10)))],
      Call ''plot'' [PyList [PyInt 1, PyInt 2, PyInt 4, PyInt 8],
                     PyList [PyFloat (Finite False 1), PyFloat (Finite False (579361974006949 / 281474976710656)),
                             PyFloat (Finite False (1933226670588041 / 562949953421312)), PyFloat (Finite False (5857891274428423 / 1125899906842624))]]
        [(''marker'', PyStr ''o''), (''linewidth'', PyInt 2), (''markersize'', PyInt 8),
         (''color'', PyStr ''#007acc''), (''label'', PyStr ''Actual Speedup'')]]"
    by (simp add: main_sample calls_named_render e threads_def)
  have n: "calls_named ''annotate'' (snd (main init_world)) =
     [Call ''annotate'' [PyStr ''1.00x'', PyTuple [PyInt 1, PyFloat (Finite False 1)]]
        [(''textcoords'', PyStr ''offset points''), (''xytext'', PyTuple [PyInt 0, PyInt 10]),
         (''ha'', PyStr ''center''), (''fontsize'', PyInt 10), (''fontweight'', PyStr ''bold'')],
      Call ''annotate'' [PyStr ''2.06x'', PyTuple [PyInt 2, PyFloat (Finite False (579361974006949 / 281474976710656))]]
        [(''textcoords'', PyStr ''offset points''), (''xytext'', PyTuple [PyInt 0, PyInt 10]),
         (''ha'', PyStr ''center''), (''fontsize'', PyInt 10), (''fontweight'', PyStr ''bold'')],
      Call ''annotate'' [PyStr ''3.43x'', PyTuple [PyInt 4, PyFloat (Finite False (1933226670588041 / 562949953421312))]]
        [(''textcoords'', PyStr ''offset points''), (''xytext'', PyTuple [PyInt 0, PyInt 10]),
         (''ha'', PyStr ''center''), (''fontsize'', PyInt 10), (''fontweight'', PyStr ''bold'')],
      Call ''annotate'' [PyStr ''5.20x'', PyTuple [PyInt 8, PyFloat (Finite False (5857891274428423 / 1125899906842624))]]
        [(''textcoords'', PyStr ''offset points''), (''xytext'', PyTuple [PyInt 0, PyInt 10]),
         (''ha'', PyStr ''center''), (''fontsize'', PyInt 10), (''fontweight'', PyStr ''bold'')]]"
    by (simp add: main_sample calls_named_annotate_render e threads_def annotate_def
        fmt_s0 fmt_s1 fmt_s2 fmt_s3 del: format_2f.simps)
  have x: "calls_named ''xticks'' (snd (main init_world)) =
     [Call ''xticks'' [PyList [PyInt 1, PyInt 2, PyInt 4, PyInt 8]] []]"
    by (simp add: main_sample calls_named_render e threads_def)
  from c a0 a1 a2 a3 m p n x show ?thesis by (simp only: simp_thms)
qed

text \<open>
  C5 as stated fails in one figure: the third speedup, \<open>32.83 / 9.56\<close>, is
  \<open>3.4341...\<close>, which is not within one unit of the third decimal of \<open>3.433\<close>.
\<close>

theorem sample_third_speedup_counterexample:
  "compute_speedups times_list init_world =
     (Inr [Finite False 1,
           Finite False (579361974006949 / 281474976710656),
           Finite False (1933226670588041 / 562949953421312),
           Finite False (5857891274428423 / 1125899906842624)], init_world) \<and>
   \<not> approx (3433 / 1000) (Finite False (1933226670588041 / 562949953421312))"
  by (simp add: compute_speedups_def speedups_sample approx_def)

text \<open>
  C6, as amended. With a positive baseline, of two positive elapsed times of a dataset
  the smaller one gets a speedup that is greater than or equal to the speedup of the
  larger one: the quotients are rounded to the nearest float, so the order is kept but
  two different elapsed times can get the same speedup.
\<close>

theorem speedup_antitone:
  assumes "compute_speedups tms w = (Inr ys, w')"
    and "i < length tms" and "j < length tms"
    and "positive (tms ! 0)" and "positive (tms ! i)" and "positive (tms ! j)"
    and "float_lt (tms ! i) (tms ! j)"
  shows "float_le (ys ! j) (ys ! i)"
proof -
  have ys: "ys = map (ieee_div (tms ! 0)) tms" using assms(1) by (rule compute_speedups_Inr)
  have "float_le (ieee_div (tms ! 0) (tms ! j)) (ieee_div (tms ! 0) (tms ! i))"
    using assms(4-7) by (rule ieee_div_antimono)
  then show ?thesis using assms(2,3) by (simp add: ys)
qed

theorem speedup_antitone_witness:
  "float_le (Finite False 1) (Finite False (2640235281545953 / 562949953421312))"
proof -
  have "float_le
      ([Finite False 1, Finite False (2640235281545953 / 562949953421312),
         Finite False (2640235281545953 / 562949953421312)] ! 0)
      ([Finite False 1, Finite False (2640235281545953 / 562949953421312),
         Finite False (2640235281545953 / 562949953421312)] ! 1)"
    by (rule speedup_antitone[OF compute_close_times, of 1 0])
      (simp_all add: lit_32_83 lit_7 lit_7_next float_lt_def)
  then show ?thesis by simp
qed

text \<open>
  C6 as stated fails: with the baseline \<open>32.83\<close> the elapsed times \<open>7.0\<close> and
  \<open>7.000000000000001\<close>, the second the greater, get the same speedup, the float
  \<open>4.6899999999999995\<close>, so the speedup of the first is not greater than the speedup of
  the second.
\<close>

theorem equal_speedups_counterexample:
  "positive (float_lit (3283 / 100)) \<and> positive (float_lit 7) \<and>
   positive (float_lit (7000000000000001 / 1000000000000000)) \<and>
   float_lt (float_lit 7) (float_lit (7000000000000001 / 1000000000000000)) \<and>
   compute_speedups
     [float_lit (3283 / 100), float_lit 7, float_lit (7000000000000001 / 1000000000000000)] init_world =
   (Inr [Finite False 1, Finite False (2640235281545953 / 562949953421312),
         Finite False (2640235281545953 / 562949953421312)], init_world) \<and>
   \<not> float_lt (Finite False (2640235281545953 / 562949953421312))
        (Finite False (2640235281545953 / 562949953421312))"
  using compute_close_times by (simp add: lit_32_83 lit_7 lit_7_next float_lt_def)

text \<open>
  C7. The speedup computation is a function of \<^verbatim>\<open>times\<close> alone. Run in two states
  that agree on \<^verbatim>\<open>times\<close> and differ in anything else (the other variables, what
  \<^verbatim>\<open>base_time\<close> and \<^verbatim>\<open>speedups\<close> held before, the plotting library, the console),
  lines 7 and 8 produce the same exception or the same speedups; run a second time, on
  the state the first run left, they produce that state again; and they change neither
  \<^verbatim>\<open>times\<close> nor \<^verbatim>\<open>threads\<close> nor the plotting library nor the console.
\<close>

theorem speedups_depend_on_times_only:
  assumes "times_g s1 = times_g s2"
  shows "outcome (lines_7_8 s1) = outcome (lines_7_8 s2) \<and>
         outcome (lines_7_8 s1) = fst (compute_speedups (times_g s1) w) \<and>
         (\<forall>s'. lines_7_8 s1 = Inr s' \<longrightarrow>
            lines_7_8 s' = Inr s' \<and> times_g s' = times_g s1 \<and> threads_g s' = threads_g s1 \<and>
            plt s' = plt s1 \<and> stdout s' = stdout s1)"
proof -
  have 1: "outcome (lines_7_8 s1) = outcome (lines_7_8 s2)"
    using assms by (simp only: lines_7_8_outcome)
  have 2: "outcome (lines_7_8 s1) = fst (compute_speedups (times_g s1) w)"
    by (simp add: lines_7_8_outcome compute_speedups_def)
  have 3: "\<forall>s'. lines_7_8 s1 = Inr s' \<longrightarrow>
            lines_7_8 s' = Inr s' \<and> times_g s' = times_g s1 \<and> threads_g s' = threads_g s1 \<and>
            plt s' = plt s1 \<and> stdout s' = stdout s1"
    using lines_7_8_again lines_7_8_frame by blast
  from 1 2 3 show ?thesis by (intro conjI)
qed

theorem speedups_depend_on_times_only_witness:
  "outcome (lines_7_8
      \<lparr>plt = [], stdout = [], threads_g = [1, 2], times_g = [Finite False 3, Finite False 2],
       base_time_g = Finite False 9, speedups_g = []\<rparr>) =
   outcome (lines_7_8
      \<lparr>plt = [Call ''figure'' [] []], stdout = [''earlier''], threads_g = [5],
       times_g = [Finite False 3, Finite False 2], base_time_g = NaN, speedups_g = [NaN]\<rparr>) \<and>
   lines_7_8
      \<lparr>plt = [], stdout = [], threads_g = [1, 2], times_g = [Finite False 3, Finite False 2],
       base_time_g = Finite False 3,
       speedups_g = [ieee_div (Finite False 3) (Finite False 3),
                     ieee_div (Finite False 3) (Finite False 2)]\<rparr> =
   Inr \<lparr>plt = [], stdout = [], threads_g = [1, 2], times_g = [Finite False 3, Finite False 2],
       base_time_g = Finite False 3,
       speedups_g = [ieee_div (Finite False 3) (Finite False 3),
                     ieee_div (Finite False 3) (Finite False 2)]\<rparr>"
proof -
  let ?s1 = "\<lparr>plt = [], stdout = [], threads_g = [1, 2],
       times_g = [Finite False 3, Finite False 2],
       base_time_g = Finite False 9, speedups_g = []\<rparr>"
  let ?s2 = "\<lparr>plt = [Call ''figure'' [] []], stdout = [''earlier''], threads_g = [5],
       times_g = [Finite False 3, Finite False 2], base_time_g = NaN, speedups_g = [NaN]\<rparr>"
  let ?s' = "\<lparr>plt = [], stdout = [], threads_g = [1, 2],
       times_g = [Finite False 3, Finite False 2],
       base_time_g = Finite False 3,
       speedups_g = [ieee_div (Finite False 3) (Finite False 3),
                     ieee_div (Finite False 3) (Finite False 2)]\<rparr>"
  have h: "times_g ?s1 = times_g ?s2" by simp
  have t: "times_g ?s1 = Finite False 3 # [Finite False 2]" by simp
  have r: "lines_7_8 ?s1 = Inr ?s'"
    unfolding lines_7_8_Cons[OF t] by (simp add: truediv_def del: ieee_div.simps)
  from speedups_depend_on_times_only[OF h, of init_world] r show ?thesis by blast
qed

text \<open>
  C8. A run that succeeds sets the title, the labels of both axes and the ticks of the
  x-axis once each: the title \<open>Wa-Tor Simulation Parallel Speedup\<close>, the x-axis label
  \<open>Number of Threads (Workers)\<close>, the y-axis label \<open>Speedup Factor\<close>, and as ticks
  the workers of the input, nothing else.
\<close>

theorem chart_labels_and_ticks:
  assumes "fst (plot_results ths tms w) = None" and "length ths = length tms"
  shows "calls_named ''title'' (snd (plot_results ths tms w)) =
           calls_named ''title'' w @
           [Call ''title'' [PyStr ''Wa-Tor Simulation Parallel Speedup''] [(''fontsize'', PyInt 14)]] \<and>
         calls_named ''xlabel'' (snd (plot_results ths tms w)) =
           calls_named ''xlabel'' w @
           [Call ''xlabel'' [PyStr ''Number of Threads (Workers)''] [(''fontsize'', PyInt 12)]] \<and>
         calls_named ''ylabel'' (snd (plot_results ths tms w)) =
           calls_named ''ylabel'' w @
           [Call ''ylabel'' [PyStr ''Speedup Factor''] [(''fontsize'', PyInt 12)]] \<and>
         calls_named ''xticks'' (snd (plot_results ths tms w)) =
           calls_named ''xticks'' w @ [Call ''xticks'' [PyList (map PyInt ths)] []]"
proof -
  from plot_results_success[OF assms(1)] obtain sp where
    r: "snd (plot_results ths tms w) = render ths sp w" by blast
  have 1: "calls_named ''title'' (render ths sp w) = calls_named ''title'' w @
      [Call ''title'' [PyStr ''Wa-Tor Simulation Parallel Speedup''] [(''fontsize'', PyInt 14)]]"
    by (simp add: calls_named_render)
  have 2: "calls_named ''xlabel'' (render ths sp w) = calls_named ''xlabel'' w @
      [Call ''xlabel'' [PyStr ''Number of Threads (Workers)''] [(''fontsize'', PyInt 12)]]"
    by (simp add: calls_named_render)
  have 3: "calls_named ''ylabel'' (render ths sp w) = calls_named ''ylabel'' w @
      [Call ''ylabel'' [PyStr ''Speedup Factor''] [(''fontsize'', PyInt 12)]]"
    by (simp add: calls_named_render)
  have 4: "calls_named ''xticks'' (render ths sp w) =
      calls_named ''xticks'' w @ [Call ''xticks'' [PyList (map PyInt ths)] []]"
    by (simp add: calls_named_render)
  from 1 2 3 4 show ?thesis by (simp only: r) 
qed

theorem chart_labels_and_ticks_witness:
  "calls_named ''title'' (snd (plot_results [1, 2] [Finite False 3, Finite False 2] init_world)) =
     [Call ''title'' [PyStr ''Wa-Tor Simulation Parallel Speedup''] [(''fontsize'', PyInt 14)]] \<and>
   calls_named ''xlabel'' (snd (plot_results [1, 2] [Finite False 3, Finite False 2] init_world)) =
     [Call ''xlabel'' [PyStr ''Number of Threads (Workers)''] [(''fontsize'', PyInt 12)]] \<and>
   calls_named ''ylabel'' (snd (plot_results [1, 2] [Finite False 3, Finite False 2] init_world)) =
     [Call ''ylabel'' [PyStr ''Speedup Factor''] [(''fontsize'', PyInt 12)]] \<and>
   calls_named ''xticks'' (snd (plot_results [1, 2] [Finite False 3, Finite False 2] init_world)) =
     [Call ''xticks'' [PyList [PyInt 1, PyInt 2]] []]"
proof -
  have h: "fst (plot_results [1, 2] [Finite False 3, Finite False 2] init_world) = None"
    by (simp add: plot_results_cases)
  have e: "calls_named f init_world = []" for f
    by (simp add: calls_named_def init_world_def)
  have l: "length [1, 2 :: int] = length [Finite False 3, Finite False 2]" by simp
  from chart_labels_and_ticks[OF h l] show ?thesis by (simp add: e)
qed

text \<open>
  C9. A run that succeeds saves the chart once, to \<open>results_graph.png\<close> at 300 dots per
  inch, and prints one line, which names that file.
\<close>

theorem image_saved_and_reported:
  assumes "fst (plot_results ths tms w) = None" and "length ths = length tms"
  shows "calls_named ''savefig'' (snd (plot_results ths tms w)) =
           calls_named ''savefig'' w @
           [Call ''savefig'' [PyStr ''results_graph.png''] [(''dpi'', PyInt 300)]] \<and>
         stdout (snd (plot_results ths tms w)) =
           stdout w @ [''Success! Graph saved as results_graph.png''] \<and>
         output_filename = ''results_graph.png''"
proof -
  from plot_results_success[OF assms(1)] obtain sp where
    r: "snd (plot_results ths tms w) = render ths sp w" by blast
  have 1: "calls_named ''savefig'' (render ths sp w) = calls_named ''savefig'' w @
      [Call ''savefig'' [PyStr ''results_graph.png''] [(''dpi'', PyInt 300)]]"
    by (simp add: calls_named_render output_filename_def)
  have 2: "stdout (render ths sp w) = stdout w @ [''Success! Graph saved as results_graph.png'']"
    by (simp add: stdout_render output_filename_def)
  from 1 2 show ?thesis by (simp only: r) (simp add: output_filename_def)
qed

theorem image_saved_and_reported_witness:
  "calls_named ''savefig'' (snd (plot_results [1, 2] [Finite False 3, Finite False 2] init_world)) =
     [Call ''savefig'' [PyStr ''results_graph.png''] [(''dpi'', PyInt 300)]] \<and>
   stdout (snd (plot_results [1, 2] [Finite False 3, Finite False 2] init_world)) =
     [''Success! Graph saved as results_graph.png'']"
proof -
  have h: "fst (plot_results [1, 2] [Finite False 3, Finite False 2] init_world) = None"
    by (simp add: plot_results_cases)
  have e: "calls_named f init_world = []" "stdout init_world = []" for f
    by (simp_all add: calls_named_def init_world_def)
  have l: "length [1, 2 :: int] = length [Finite False 3, Finite False 2]" by simp
  from image_saved_and_reported[OF h l] show ?thesis by (simp add: e)
qed

text \<open>
  C10. Two runs of the script on datasets with the same elapsed times and any workers
  (as many as elapsed times) end alike, and their charts show the same speedups at every
  position: the same y-values of the curve of the actual speedup, the same y-values of
  the annotated points and the same annotation texts. The annotated values are the
  speedups computed from the elapsed times.
\<close>

theorem plotted_speedups_ignore_workers:
  assumes "length ths1 = length tms" and "length ths2 = length tms"
  shows "fst (plot_results ths1 tms w) = fst (plot_results ths2 tms w) \<and>
         curve_values (snd (plot_results ths1 tms w)) =
           curve_values (snd (plot_results ths2 tms w)) \<and>
         annotated_values (snd (plot_results ths1 tms w)) =
           annotated_values (snd (plot_results ths2 tms w)) \<and>
         annotation_labels (snd (plot_results ths1 tms w)) =
           annotation_labels (snd (plot_results ths2 tms w)) \<and>
         annotated_values (snd (plot_results ths1 tms w)) =
           annotated_values w @ (case speedups tms of Inl e \<Rightarrow> [] | Inr sp \<Rightarrow> map PyFloat sp)"
proof (cases "speedups tms")
  case (Inl e)
  then show ?thesis by (simp add: plot_results_Inl)
next
  case (Inr sp)
  have l: "length sp = length tms" using Inr by (rule speedups_length)
  have l1: "length ths1 = length sp" and l2: "length ths2 = length sp"
    using assms l by simp_all
  have r1: "plot_results ths1 tms w = (None, render ths1 sp w)"
    using Inr by (rule plot_results_Inr)
  have r2: "plot_results ths2 tms w = (None, render ths2 sp w)"
    using Inr by (rule plot_results_Inr)
  show ?thesis
    unfolding r1 r2 Inr
    by (simp add: curve_values_render annotated_values_render[OF l1]
        annotated_values_render[OF l2] annotation_labels_render[OF l1]
        annotation_labels_render[OF l2] del: format_2f.simps)
qed

theorem plotted_speedups_ignore_workers_witness:
  "annotated_values (snd (plot_results [1, 2] [Finite False 3, Finite False 2] init_world)) =
     annotated_values (snd (plot_results [7, 5] [Finite False 3, Finite False 2] init_world)) \<and>
   annotated_values (snd (plot_results [1, 2] [Finite False 3, Finite False 2] init_world)) =
     [PyFloat (ieee_div (Finite False 3) (Finite False 3)),
      PyFloat (ieee_div (Finite False 3) (Finite False 2))] \<and>
   annotation_labels (snd (plot_results [1, 2] [Finite False 3, Finite False 2] init_world)) =
     annotation_labels (snd (plot_results [7, 5] [Finite False 3, Finite False 2] init_world)) \<and>
   curve_values (snd (plot_results [1, 2] [Finite False 3, Finite False 2] init_world)) =
     curve_values (snd (plot_results [7, 5] [Finite False 3, Finite False 2] init_world))"
proof -
  have 1: "length [1, 2 :: int] = length [Finite False 3, Finite False 2]" by simp
  have 2: "length [7, 5 :: int] = length [Finite False 3, Finite False 2]" by simp
  have s: "speedups [Finite False 3, Finite False 2] =
      Inr [ieee_div (Finite False 3) (Finite False 3), ieee_div (Finite False 3) (Finite False 2)]"
    using speedups_ok[of "Finite False 3" "[Finite False 2]"] by (simp del: ieee_div.simps)
  have e: "annotated_values init_world = []"
    by (simp add: annotated_values_def calls_named_def init_world_def)
  note T = plotted_speedups_ignore_workers[OF 1 2, of init_world]
  from T have c: "curve_values (snd (plot_results [1, 2] [Finite False 3, Finite False 2] init_world)) =
     curve_values (snd (plot_results [7, 5] [Finite False 3, Finite False 2] init_world))"
    by blast
  from T have v: "annotated_values (snd (plot_results [1, 2] [Finite False 3, Finite False 2] init_world)) =
     annotated_values (snd (plot_results [7, 5] [Finite False 3, Finite False 2] init_world))"
    by blast
  from T have b: "annotation_labels (snd (plot_results [1, 2] [Finite False 3, Finite False 2] init_world)) =
     annotation_labels (snd (plot_results [7, 5] [Finite False 3, Finite False 2] init_world))"
    by blast
  from T have "annotated_values (snd (plot_results [1, 2] [Finite False 3, Finite False 2] init_world)) =
     annotated_values init_world @
     (case speedups [Finite False 3, Finite False 2] of Inl e \<Rightarrow> [] | Inr sp \<Rightarrow> map PyFloat sp)"
    by blast
  then have x: "annotated_values (snd (plot_results [1, 2] [Finite False 3, Finite False 2] init_world)) =
     [PyFloat (ieee_div (Finite False 3) (Finite False 3)),
      PyFloat (ieee_div (Finite False 3) (Finite False 2))]"
    by (simp only: s e sum.case append_Nil list.map)
  from c v b x show ?thesis by blast
qed

end
